theory Spec2Isabelle
  imports Main
begin

section \<open>Data model\<close>

text \<open>
  The package is a facade over the zap logging library. Its own code (logger.go,
  redaction.go, core.go, handlers.go and the \<open>Config\<close> struct) is embedded function by
  function. The few
  zap operations it calls (\<open>zap.New\<close>, the verbs of \<open>zap.Logger\<close>, \<open>zapcore.NewCore\<close>,
  \<open>zapcore.NewNopCore\<close>, \<open>CheckedEntry.AddCore\<close> and \<open>CheckedEntry.Write\<close>) are embedded
  from the library's implementation and marked as such where they are defined.

  Runs are sequential: the mutexes of \<open>Logger\<close> and \<open>multiCoreSyncWrapper\<close> only order
  concurrent accesses and are left out.
\<close>

subsection \<open>Severity levels\<close>

text \<open>
  \<open>LogLevel\<close> is \<open>zapcore.Level\<close>, a signed integer compared with \<open>\<ge>\<close>;
  the named levels have the values zapcore gives them.
\<close>

type_synonym Level = int

abbreviation DebugLevel :: Level where "DebugLevel \<equiv> - 1"
abbreviation InfoLevel :: Level where "InfoLevel \<equiv> 0"
abbreviation WarnLevel :: Level where "WarnLevel \<equiv> 1"
abbreviation ErrorLevel :: Level where "ErrorLevel \<equiv> 2"
abbreviation DPanicLevel :: Level where "DPanicLevel \<equiv> 3"
abbreviation PanicLevel :: Level where "PanicLevel \<equiv> 4"
abbreviation FatalLevel :: Level where "FatalLevel \<equiv> 5"

subsection \<open>Fields\<close>

text \<open>
  A value handed to a verb in a \<open>map[string]interface{}\<close>, tagged by its dynamic type.
  A \<open>zap.Field\<close> is a key with a typed payload; its \<open>Type\<close> is \<open>StringType\<close> exactly
  when the payload is a \<open>VString\<close>.
\<close>

datatype Value = VString string | VInt int | VBool bool | VError string | VReflect string

record Field =
  Key :: string
  Val :: Value

fun isStringType :: "Field \<Rightarrow> bool" where
  "isStringType f = (case Val f of VString _ \<Rightarrow> True | _ \<Rightarrow> False)"

text \<open>\<open>zap.String(key, val)\<close> and \<open>zap.Any(key, value)\<close> (a switch on the dynamic type).\<close>

definition zap_String :: "string \<Rightarrow> string \<Rightarrow> Field" where
  "zap_String k v = \<lparr>Key = k, Val = VString v\<rparr>"

definition zap_Any :: "string \<Rightarrow> Value \<Rightarrow> Field" where
  "zap_Any k v = \<lparr>Key = k, Val = v\<rparr>"

text \<open>
  A Go map is iterated in an unspecified order, each key once. A map argument is an
  association list whose order is the order of that iteration, so every order is covered
  by a statement about every list.
\<close>

type_synonym FieldMap = "(string \<times> Value) list"

subsection \<open>Redaction rules\<close>

text \<open>
  A compiled \<open>*regexp.Regexp\<close> is used through one method only,
  \<open>ReplaceAllString(src, repl)\<close>; the pattern is represented by that method.
\<close>

type_synonym Regexp = "string \<Rightarrow> string \<Rightarrow> string"

record redaction =
  regex :: Regexp
  replacement :: string

text \<open>
  The pattern that matches one literal character \<open>c\<close>: replacing all matches substitutes
  \<open>repl\<close> (a replacement without \<open>$\<close>) for every occurrence of \<open>c\<close>.
\<close>

definition char_regexp :: "char \<Rightarrow> Regexp" where
  "char_regexp c src repl = concat (map (\<lambda>x. if x = c then repl else [x]) src)"

subsection \<open>Entries, cores and loggers\<close>

type_synonym ptr = nat

record Entry =
  Level :: Level
  LoggerName :: string
  Message :: string

datatype Encoder = ConsoleEncoder | JSONEncoder

datatype Dest = Stdout | File string

text \<open>
  The implementations of \<open>zapcore.Core\<close> the package builds:
  \<^item> \<open>IoCore enc out enab\<close> is \<open>zapcore.NewCore(enc, out, enab)\<close>;
  \<^item> \<open>NopCore\<close> is \<open>zapcore.NewNopCore()\<close>;
  \<^item> \<open>RedactingCore core logger\<close> is the struct \<open>redactingCore\<close> of handlers.go, holding
    a pointer to the logger that registered it;
  \<^item> \<open>FieldRedactingCore core redactKeys\<close> is the struct \<open>fieldRedactingCore\<close> of
    redaction.go.
  Both structs embed their inner \<open>Core\<close>, so every method they do not define is the
  inner core's method, run with the inner core as receiver.
\<close>

datatype Core =
    IoCore Encoder Dest "Level \<Rightarrow> bool"
  | NopCore
  | RedactingCore Core ptr
  | FieldRedactingCore Core "string set"

datatype CheckWriteAction = WriteThenNoop | WriteThenFatal

record CheckedEntry =
  ce_Entry :: Entry
  ce_cores :: "Core list"
  ce_after :: CheckWriteAction

text \<open>The \<open>*zap.Logger\<close> built by \<open>zap.New(core)\<close> with no option: it only holds its core.\<close>

record ZapLogger =
  zl_core :: ptr

record Logger =
  l_Logger :: ZapLogger
  l_name :: string
  l_context :: "Field list"
  l_redactions :: "redaction list"
  l_atomicLevel :: ptr
  l_coreWrapper :: ptr

text \<open>One invocation of the writing core of a sink: what its encoder is handed.\<close>

record Written =
  w_dest :: Dest
  w_entry :: Entry
  w_fields :: "Field list"

text \<open>
  The store. \<open>*Logger\<close>, \<open>*multiCoreSyncWrapper\<close> (its \<open>cores\<close> slice) and the cell behind
  a \<open>zap.AtomicLevel\<close> live at addresses, allocated in increasing order. \<open>open_err\<close> and
  \<open>dest_err\<close> are the outside world: whether opening a path, or writing to a destination,
  fails. \<open>calls\<close> is the trace of the invocations of \<open>ioCore.Write\<close>, in the order they
  happen and whether or not the destination then fails; \<open>err_out\<close> is what zap reports on
  its error output, \<open>exited\<close> whether the process was terminated by \<open>Fatal\<close>.
\<close>

record state =
  loggers :: "ptr \<Rightarrow> Logger"
  nlog :: nat
  wrappers :: "ptr \<Rightarrow> Core list"
  nwrap :: nat
  levels :: "ptr \<Rightarrow> Level"
  nlev :: nat
  open_err :: "string \<Rightarrow> string option"
  dest_err :: "Dest \<Rightarrow> string option"
  calls :: "Written list"
  err_out :: "string list"
  exited :: bool

text \<open>The records handed to sinks between state \<open>s\<close> and a later state \<open>s'\<close>.\<close>

definition delivered :: "state \<Rightarrow> state \<Rightarrow> Written list" where
  "delivered s s' = drop (length (calls s)) (calls s')"

section \<open>redaction.go\<close>

text \<open>
  \<open>Logger.redactMessage\<close>: the loop over \<open>l.redactions\<close>, with \<open>redacted\<close> as the
  loop variable.
\<close>

fun redactLoop :: "redaction list \<Rightarrow> string \<Rightarrow> string" where
  "redactLoop [] redacted = redacted"
| "redactLoop (r # rs) redacted = redactLoop rs (regex r redacted (replacement r))"

definition redactMessage :: "Logger \<Rightarrow> string \<Rightarrow> string" where
  "redactMessage l message = redactLoop (l_redactions l) message"

text \<open>\<open>Logger.redactField\<close>.\<close>

definition redactField :: "Logger \<Rightarrow> Field \<Rightarrow> Field" where
  "redactField l field =
     (case Val field of
        VString str \<Rightarrow>
          (let redacted = redactMessage l str
           in if redacted \<noteq> str then zap_String (Key field) redacted else field)
      | _ \<Rightarrow> field)"

text \<open>\<open>Logger.AddRedaction\<close>, on the logger at address \<open>l\<close>.\<close>

definition AddRedaction :: "ptr \<Rightarrow> Regexp \<Rightarrow> string \<Rightarrow> state \<Rightarrow> state" where
  "AddRedaction l pattern repl s =
     s\<lparr>loggers := (loggers s)
          (l := (loggers s l)\<lparr>l_redactions :=
                   l_redactions (loggers s l) @ [\<lparr>regex = pattern, replacement = repl\<rparr>]\<rparr>)\<rparr>"

text \<open>The loop of \<open>fieldRedactingCore.Write\<close> that builds \<open>redactedFields\<close>.\<close>

fun redactFields :: "string set \<Rightarrow> Field list \<Rightarrow> Field list" where
  "redactFields redactKeys [] = []"
| "redactFields redactKeys (field # fs) =
     (if Key field \<in> redactKeys \<and> isStringType field
      then zap_String (Key field) ''***REDACTED***'' # redactFields redactKeys fs
      else field # redactFields redactKeys fs)"

text \<open>\<open>createFieldRedactorCore\<close>: the key set wraps a no-op core.\<close>

definition createFieldRedactorCore :: "ptr \<Rightarrow> string list \<Rightarrow> Core" where
  "createFieldRedactorCore logger keys = FieldRedactingCore NopCore (set keys)"

section \<open>The methods of the cores\<close>

text \<open>
  \<open>Enabled\<close>: \<open>ioCore\<close> asks its level enabler, \<open>nopCore\<close> answers false; neither wrapper
  defines the method.
\<close>

fun Core_Enabled :: "Core \<Rightarrow> Level \<Rightarrow> bool" where
  "Core_Enabled (IoCore enc out enab) lvl = enab lvl"
| "Core_Enabled NopCore lvl = False"
| "Core_Enabled (RedactingCore core logger) lvl = Core_Enabled core lvl"
| "Core_Enabled (FieldRedactingCore core redactKeys) lvl = Core_Enabled core lvl"

text \<open>
  \<open>CheckedEntry.AddCore\<close> of zapcore: a nil checked entry is created with the entry it is
  given; an existing one keeps its entry and gains the core.
\<close>

definition AddCore :: "Entry \<Rightarrow> Core \<Rightarrow> CheckedEntry option \<Rightarrow> CheckedEntry option" where
  "AddCore ent core ce =
     (case ce of
        None \<Rightarrow> Some \<lparr>ce_Entry = ent, ce_cores = [core], ce_after = WriteThenNoop\<rparr>
      | Some c \<Rightarrow> Some (c\<lparr>ce_cores := ce_cores c @ [core]\<rparr>))"

text \<open>
  \<open>Check\<close>: \<open>ioCore.Check\<close> adds itself when it is enabled for the entry's level,
  \<open>nopCore.Check\<close> returns the checked entry as it is; \<open>redactingCore.Check\<close>
  (handlers.go) redacts the message with the rules its logger has at that moment and
  calls the inner core; \<open>fieldRedactingCore\<close> does not define the method.
\<close>

fun Core_Check :: "state \<Rightarrow> Core \<Rightarrow> Entry \<Rightarrow> CheckedEntry option \<Rightarrow> CheckedEntry option" where
  "Core_Check s (IoCore enc out enab) ent ce =
     (if enab (Level ent) then AddCore ent (IoCore enc out enab) ce else ce)"
| "Core_Check s NopCore ent ce = ce"
| "Core_Check s (RedactingCore core logger) ent ce =
     (let redactedEntry = ent\<lparr>Message := redactMessage (loggers s logger) (Message ent)\<rparr>
      in Core_Check s core redactedEntry ce)"
| "Core_Check s (FieldRedactingCore core redactKeys) ent ce = Core_Check s core ent ce"

text \<open>
  \<open>Write\<close>: \<open>ioCore.Write\<close> hands the entry and the fields to its encoder and writes to
  its destination, returning the destination's error; \<open>nopCore.Write\<close> does nothing;
  \<open>fieldRedactingCore.Write\<close> (redaction.go) rewrites the fields and calls the inner
  core; \<open>redactingCore\<close> does not define the method.
\<close>

fun Core_Write :: "Core \<Rightarrow> Entry \<Rightarrow> Field list \<Rightarrow> state \<Rightarrow> string option \<times> state" where
  "Core_Write (IoCore enc out enab) ent fs s =
     (dest_err s out,
      s\<lparr>calls := calls s @ [\<lparr>w_dest = out, w_entry = ent, w_fields = fs\<rparr>]\<rparr>)"
| "Core_Write NopCore ent fs s = (None, s)"
| "Core_Write (RedactingCore core logger) ent fs s = Core_Write core ent fs s"
| "Core_Write (FieldRedactingCore core redactKeys) ent fs s =
     Core_Write core ent (redactFields redactKeys fs) s"

section \<open>core.go\<close>

text \<open>The methods of \<open>multiCoreSyncWrapper\<close>, on its \<open>cores\<close> slice.\<close>

fun multiCoreSyncWrapper_Enabled :: "Core list \<Rightarrow> Level \<Rightarrow> bool" where
  "multiCoreSyncWrapper_Enabled [] lvl = False"
| "multiCoreSyncWrapper_Enabled (core # cores) lvl =
     (if Core_Enabled core lvl then True else multiCoreSyncWrapper_Enabled cores lvl)"

fun multiCoreSyncWrapper_Check ::
  "state \<Rightarrow> Core list \<Rightarrow> Entry \<Rightarrow> CheckedEntry option \<Rightarrow> CheckedEntry option" where
  "multiCoreSyncWrapper_Check s [] ent ce = ce"
| "multiCoreSyncWrapper_Check s (core # cores) ent ce =
     multiCoreSyncWrapper_Check s cores ent (Core_Check s core ent ce)"

fun multiCoreSyncWrapper_Write ::
  "Core list \<Rightarrow> Entry \<Rightarrow> Field list \<Rightarrow> state \<Rightarrow> string option \<times> state" where
  "multiCoreSyncWrapper_Write [] ent fs s = (None, s)"
| "multiCoreSyncWrapper_Write (core # cores) ent fs s =
     (case Core_Write core ent fs s of
        (Some err, s') \<Rightarrow> (Some err, s')
      | (None, s') \<Rightarrow> multiCoreSyncWrapper_Write cores ent fs s')"

text \<open>\<open>AddCore\<close> of the wrapper at address \<open>m\<close>.\<close>

definition multiCoreSyncWrapper_AddCore :: "ptr \<Rightarrow> Core \<Rightarrow> state \<Rightarrow> state" where
  "multiCoreSyncWrapper_AddCore m core s =
     s\<lparr>wrappers := (wrappers s)(m := wrappers s m @ [core])\<rparr>"

section \<open>The zap logger\<close>

text \<open>
  \<open>CheckedEntry.After\<close> of zapcore: sets the terminal behaviour, creating the checked
  entry, with the entry given, when it is nil.
\<close>

definition CheckedEntry_After ::
  "Entry \<Rightarrow> CheckWriteAction \<Rightarrow> CheckedEntry option \<Rightarrow> CheckedEntry" where
  "CheckedEntry_After ent hook ce =
     (case ce of
        None \<Rightarrow> \<lparr>ce_Entry = ent, ce_cores = [], ce_after = hook\<rparr>
      | Some c \<Rightarrow> c\<lparr>ce_after := hook\<rparr>)"

text \<open>
  \<open>Logger.check\<close> of zap, for the five levels the package's verbs use. Below
  \<open>DPanicLevel\<close> a disabled level returns nil at once. Otherwise the entry, with the
  logger's name (empty: \<open>zap.New\<close> names nothing) and the message, goes through the
  core's \<open>Check\<close>; at \<open>FatalLevel\<close> the terminal behaviour is set. The time stamp is not
  part of the model.
\<close>

definition zap_check :: "state \<Rightarrow> ZapLogger \<Rightarrow> Level \<Rightarrow> string \<Rightarrow> CheckedEntry option" where
  "zap_check s log lvl msg =
     (if lvl < DPanicLevel \<and> \<not> multiCoreSyncWrapper_Enabled (wrappers s (zl_core log)) lvl
      then None
      else
        (let ent = \<lparr>Level = lvl, LoggerName = [], Message = msg\<rparr>;
             ce = multiCoreSyncWrapper_Check s (wrappers s (zl_core log)) ent None
         in if lvl = FatalLevel then Some (CheckedEntry_After ent WriteThenFatal ce) else ce))"

text \<open>
  \<open>CheckedEntry.Write\<close> of zapcore: every core that was added is written the checked
  entry's own entry and the fields; the errors are collected, not returned, and reported
  on the error output; then the terminal behaviour runs.
\<close>

fun writeCores ::
  "Core list \<Rightarrow> Entry \<Rightarrow> Field list \<Rightarrow> string list \<Rightarrow> state \<Rightarrow> string list \<times> state" where
  "writeCores [] ent fs err s = (err, s)"
| "writeCores (core # cores) ent fs err s =
     (case Core_Write core ent fs s of
        (None, s') \<Rightarrow> writeCores cores ent fs err s'
      | (Some e, s') \<Rightarrow> writeCores cores ent fs (err @ [e]) s')"

definition CheckedEntry_Write :: "CheckedEntry \<Rightarrow> Field list \<Rightarrow> state \<Rightarrow> state" where
  "CheckedEntry_Write ce fs s =
     (case writeCores (ce_cores ce) (ce_Entry ce) fs [] s of
        (err, s') \<Rightarrow>
          (let s'' = (if err \<noteq> [] then s'\<lparr>err_out := err_out s' @ err\<rparr> else s')
           in if ce_after ce = WriteThenFatal then s''\<lparr>exited := True\<rparr> else s''))"

text \<open>
  The verbs \<open>Debug\<close>, \<open>Info\<close>, \<open>Warn\<close>, \<open>Error\<close> and \<open>Fatal\<close> of \<open>zap.Logger\<close>: check at
  the verb's level and, when the checked entry is not nil, write it with the fields.
\<close>

definition zap_log :: "ZapLogger \<Rightarrow> Level \<Rightarrow> string \<Rightarrow> Field list \<Rightarrow> state \<Rightarrow> state" where
  "zap_log log lvl msg fs s =
     (case zap_check s log lvl msg of
        None \<Rightarrow> s
      | Some ce \<Rightarrow> CheckedEntry_Write ce fs s)"

section \<open>handlers.go\<close>

definition createRedactingCore :: "ptr \<Rightarrow> Core \<Rightarrow> Core" where
  "createRedactingCore l core = RedactingCore core l"

definition AddConsoleHandler :: "ptr \<Rightarrow> Level \<Rightarrow> bool \<Rightarrow> state \<Rightarrow> state" where
  "AddConsoleHandler l level development s =
     (let encoder = (if development then ConsoleEncoder else JSONEncoder);
          levelEnabler = (\<lambda>lvl. lvl \<ge> level);
          core = IoCore encoder Stdout levelEnabler
      in multiCoreSyncWrapper_AddCore (l_coreWrapper (loggers s l)) (createRedactingCore l core) s)"

text \<open>Opening the file can fail; then nothing is registered and the error is returned.\<close>

definition AddFileHandler :: "ptr \<Rightarrow> string \<Rightarrow> Level \<Rightarrow> state \<Rightarrow> string option \<times> state" where
  "AddFileHandler l filePath level s =
     (case open_err s filePath of
        Some err \<Rightarrow> (Some err, s)
      | None \<Rightarrow>
          (let encoder = JSONEncoder;
               levelEnabler = (\<lambda>lvl. lvl \<ge> level);
               core = IoCore encoder (File filePath) levelEnabler
           in (None,
               multiCoreSyncWrapper_AddCore (l_coreWrapper (loggers s l))
                 (createRedactingCore l core) s)))"

section \<open>logger.go\<close>

text \<open>
  \<open>NewLogger\<close> allocates the atomic level, the empty wrapper and the logger. The zap
  logger is built from the wrapper alone: the atomic level is stored in the logger and
  given to nothing else.
\<close>

definition NewLogger :: "string \<Rightarrow> Level \<Rightarrow> state \<Rightarrow> ptr \<times> state" where
  "NewLogger nm level s =
     (let atomicLevel = nlev s;
          coreWrapper = nwrap s;
          zapLogger = \<lparr>zl_core = coreWrapper\<rparr>;
          l = nlog s
      in (l,
          s\<lparr>levels := (levels s)(atomicLevel := level), nlev := atomicLevel + 1,
            wrappers := (wrappers s)(coreWrapper := []), nwrap := coreWrapper + 1,
            loggers := (loggers s)
              (l := \<lparr>l_Logger = zapLogger, l_name = nm,
                     l_context = [zap_String ''logger'' nm], l_redactions = [],
                     l_atomicLevel = atomicLevel, l_coreWrapper = coreWrapper\<rparr>),
            nlog := l + 1\<rparr>))"

text \<open>The \<open>Config\<close> struct; its two maps are association lists in iteration order.\<close>

record Config =
  cfg_Name :: string
  cfg_Level :: Level
  cfg_Development :: bool
  cfg_ConsoleLevel :: "Level option"
  cfg_FileConfig :: "(string \<times> Level) list"
  cfg_RedactRegex :: "(Regexp \<times> string) list"
  cfg_RedactFields :: "string list"

text \<open>The two loops of \<open>NewLoggerWithConfig\<close>; the first returns at the first error.\<close>

fun addFileHandlers :: "ptr \<Rightarrow> (string \<times> Level) list \<Rightarrow> state \<Rightarrow> string option \<times> state" where
  "addFileHandlers logger [] s = (None, s)"
| "addFileHandlers logger ((path, level) # rest) s =
     (case AddFileHandler logger path level s of
        (Some err, s') \<Rightarrow> (Some err, s')
      | (None, s') \<Rightarrow> addFileHandlers logger rest s')"

fun addRedactions :: "ptr \<Rightarrow> (Regexp \<times> string) list \<Rightarrow> state \<Rightarrow> state" where
  "addRedactions logger [] s = s"
| "addRedactions logger ((rx, repl) # rest) s =
     addRedactions logger rest (AddRedaction logger rx repl s)"

definition NewLoggerWithConfig :: "Config \<Rightarrow> state \<Rightarrow> (string + ptr) \<times> state" where
  "NewLoggerWithConfig cfg s =
     (case NewLogger (cfg_Name cfg) (cfg_Level cfg) s of
        (logger, s1) \<Rightarrow>
          (let s2 = (case cfg_ConsoleLevel cfg of
                       Some consoleLevel \<Rightarrow>
                         AddConsoleHandler logger consoleLevel (cfg_Development cfg) s1
                     | None \<Rightarrow> s1)
           in case addFileHandlers logger (cfg_FileConfig cfg) s2 of
                (Some err, s3) \<Rightarrow> (Inl err, s3)
              | (None, s3) \<Rightarrow>
                  (let s4 = addRedactions logger (cfg_RedactRegex cfg) s3;
                       s5 = (if length (cfg_RedactFields cfg) > 0
                             then multiCoreSyncWrapper_AddCore (l_coreWrapper (loggers s4 logger))
                                    (createFieldRedactorCore logger (cfg_RedactFields cfg)) s4
                             else s4)
                   in (Inr logger, s5))))"

text \<open>The loop \<open>for k, v := range m { allFields = append(allFields, zap.Any(k, v)) }\<close>.\<close>

fun appendFields :: "Field list \<Rightarrow> FieldMap \<Rightarrow> Field list" where
  "appendFields allFields [] = allFields"
| "appendFields allFields ((k, v) # m) = appendFields (allFields @ [zap_Any k v]) m"

text \<open>
  The five verbs have one body, up to the zap verb called on its last line:
  \<open>logAt\<close> is that body, with the level of the zap verb as a parameter. The variadic
  argument is the list of the maps supplied, \<open>None\<close> for a nil map.
\<close>

definition logAt ::
  "Level \<Rightarrow> ptr \<Rightarrow> string \<Rightarrow> FieldMap option list \<Rightarrow> state \<Rightarrow> state" where
  "logAt lvl l msg fs s =
     (let redactedMsg = redactMessage (loggers s l) msg;
          allFields = [] @ l_context (loggers s l);
          allFields = (case fs of
                         Some m # _ \<Rightarrow> appendFields allFields m
                       | _ \<Rightarrow> allFields)
      in zap_log (l_Logger (loggers s l)) lvl redactedMsg allFields s)"

definition Debug :: "ptr \<Rightarrow> string \<Rightarrow> FieldMap option list \<Rightarrow> state \<Rightarrow> state" where
  "Debug l msg fs s = logAt DebugLevel l msg fs s"

definition Info :: "ptr \<Rightarrow> string \<Rightarrow> FieldMap option list \<Rightarrow> state \<Rightarrow> state" where
  "Info l msg fs s = logAt InfoLevel l msg fs s"

definition Warn :: "ptr \<Rightarrow> string \<Rightarrow> FieldMap option list \<Rightarrow> state \<Rightarrow> state" where
  "Warn l msg fs s = logAt WarnLevel l msg fs s"

definition Error :: "ptr \<Rightarrow> string \<Rightarrow> FieldMap option list \<Rightarrow> state \<Rightarrow> state" where
  "Error l msg fs s = logAt ErrorLevel l msg fs s"

definition Fatal :: "ptr \<Rightarrow> string \<Rightarrow> FieldMap option list \<Rightarrow> state \<Rightarrow> state" where
  "Fatal l msg fs s = logAt FatalLevel l msg fs s"

text \<open>\<open>SetLevel\<close> stores into the cell of the logger's atomic level.\<close>

definition SetLevel :: "ptr \<Rightarrow> Level \<Rightarrow> state \<Rightarrow> state" where
  "SetLevel l level s = s\<lparr>levels := (levels s)(l_atomicLevel (loggers s l) := level)\<rparr>"

text \<open>The loop of \<open>Child\<close> that rewrites the first field with key \<open>logger\<close>, then breaks.\<close>

fun replaceLoggerField :: "Field list \<Rightarrow> string \<Rightarrow> Field list" where
  "replaceLoggerField [] childName = []"
| "replaceLoggerField (field # rest) childName =
     (if Key field = ''logger'' then zap_String ''logger'' childName # rest
      else field # replaceLoggerField rest childName)"

text \<open>
  \<open>Child\<close> and \<open>WithContext\<close> allocate a new logger. The zap logger, the atomic level
  and the wrapper are the parent's pointers; \<open>context\<close> and \<open>redactions\<close> are fresh
  slices holding the parent's elements.
\<close>

definition Child :: "ptr \<Rightarrow> string \<Rightarrow> state \<Rightarrow> ptr \<times> state" where
  "Child l nm s =
     (let p = loggers s l;
          childName = (if l_name p \<noteq> [] then l_name p @ ''.'' @ nm else nm);
          child = \<lparr>l_Logger = l_Logger p, l_name = childName,
                   l_context = [] @ l_context p, l_redactions = [] @ l_redactions p,
                   l_atomicLevel = l_atomicLevel p, l_coreWrapper = l_coreWrapper p\<rparr>;
          child = child\<lparr>l_context := replaceLoggerField (l_context child) childName\<rparr>;
          c = nlog s
      in (c, s\<lparr>loggers := (loggers s)(c := child), nlog := c + 1\<rparr>))"

definition WithContext :: "ptr \<Rightarrow> FieldMap \<Rightarrow> state \<Rightarrow> ptr \<times> state" where
  "WithContext l fm s =
     (let p = loggers s l;
          contextLogger = \<lparr>l_Logger = l_Logger p, l_name = l_name p,
                           l_context = [] @ l_context p, l_redactions = [] @ l_redactions p,
                           l_atomicLevel = l_atomicLevel p, l_coreWrapper = l_coreWrapper p\<rparr>;
          contextLogger = contextLogger\<lparr>l_context := appendFields (l_context contextLogger) fm\<rparr>;
          c = nlog s
      in (c, s\<lparr>loggers := (loggers s)(c := contextLogger), nlog := c + 1\<rparr>))"

section \<open>Notions used in the statements\<close>

text \<open>The verbs with the level each passes to zap.\<close>

definition verbs ::
  "((ptr \<Rightarrow> string \<Rightarrow> FieldMap option list \<Rightarrow> state \<Rightarrow> state) \<times> Level) set" where
  "verbs = {(Debug, DebugLevel), (Info, InfoLevel), (Warn, WarnLevel), (Error, ErrorLevel),
            (Fatal, FatalLevel)}"

text \<open>
  The fields a call supplies: one \<open>zap.Any\<close> field per entry of the first map, when there
  is a first map and it is not nil.
\<close>

definition callFields :: "FieldMap option list \<Rightarrow> Field list" where
  "callFields fs = (case fs of Some m # _ \<Rightarrow> map (\<lambda>(k, v). zap_Any k v) m | _ \<Rightarrow> [])"

text \<open>\<open>Write\<close> invoked once on every core of a list, in the order of the list.\<close>

definition writeEach :: "Core list \<Rightarrow> Entry \<Rightarrow> Field list \<Rightarrow> state \<Rightarrow> state" where
  "writeEach cores ent fs s = fold (\<lambda>core st. snd (Core_Write core ent fs st)) cores s"

text \<open>
  The specification's \<open>RedactText\<close>: rule \<open>r1\<close> is applied to the message as a global
  find-and-replace, \<open>r2\<close> to the result, and so on through the list.
\<close>

definition RedactText :: "redaction list \<Rightarrow> string \<Rightarrow> string" where
  "RedactText rules M = foldl (\<lambda>m r. regex r m (replacement r)) M rules"

text \<open>
  For a core with its wrappers: the innermost core, the entry as the innermost core's
  \<open>Check\<close> receives it, and the destination the innermost core writes to (none for a
  no-op core).
\<close>

fun Core_leaf :: "Core \<Rightarrow> Core" where
  "Core_leaf (IoCore enc out enab) = IoCore enc out enab"
| "Core_leaf NopCore = NopCore"
| "Core_leaf (RedactingCore core logger) = Core_leaf core"
| "Core_leaf (FieldRedactingCore core redactKeys) = Core_leaf core"

fun Core_seen :: "state \<Rightarrow> Core \<Rightarrow> Entry \<Rightarrow> Entry" where
  "Core_seen s (IoCore enc out enab) ent = ent"
| "Core_seen s NopCore ent = ent"
| "Core_seen s (RedactingCore core logger) ent =
     Core_seen s core (ent\<lparr>Message := redactMessage (loggers s logger) (Message ent)\<rparr>)"
| "Core_seen s (FieldRedactingCore core redactKeys) ent = Core_seen s core ent"

fun Core_dests :: "Core \<Rightarrow> Dest list" where
  "Core_dests (IoCore enc out enab) = [out]"
| "Core_dests NopCore = []"
| "Core_dests (RedactingCore core logger) = Core_dests core"
| "Core_dests (FieldRedactingCore core redactKeys) = Core_dests core"

section \<open>Concrete runs\<close>

text \<open>
  The state of a program that has built nothing yet, in a world where no file fails to
  open and no destination fails to write.
\<close>

definition start :: state where
  "start = \<lparr>loggers = (\<lambda>_. \<lparr>l_Logger = \<lparr>zl_core = 0\<rparr>, l_name = [], l_context = [],
                               l_redactions = [], l_atomicLevel = 0, l_coreWrapper = 0\<rparr>),
            nlog = 0, wrappers = (\<lambda>_. []), nwrap = 0, levels = (\<lambda>_. 0), nlev = 0,
            open_err = (\<lambda>_. None), dest_err = (\<lambda>_. None), calls = [], err_out = [],
            exited = False\<rparr>"

text \<open>A world where writing to \<open>a.log\<close> fails, a plain sink and an entry.\<close>

definition disk_full :: state where
  "disk_full = start\<lparr>dest_err := (\<lambda>d. if d = File ''a.log'' then Some ''disk full'' else None)\<rparr>"

definition sink :: "Dest \<Rightarrow> Core" where
  "sink d = IoCore JSONEncoder d (\<lambda>lvl. lvl \<ge> InfoLevel)"

definition hello :: Entry where
  "hello = \<lparr>Level = InfoLevel, LoggerName = [], Message = ''hello''\<rparr>"

text \<open>
  The end of the demonstration program: a root logger with a console sink at
  \<open>DebugLevel\<close>, a child derived from it, then \<open>SetLevel(WarnLevel)\<close> on the root.
  The result is the child and the state.
\<close>

definition threshold_scenario :: "ptr \<times> state" where
  "threshold_scenario =
     (case NewLogger ''app'' InfoLevel start of
        (root, s1) \<Rightarrow>
          (case Child root ''auth'' (AddConsoleHandler root DebugLevel True s1) of
             (child, s2) \<Rightarrow> (child, SetLevel root WarnLevel s2)))"

text \<open>A root logger with a console sink and the rule that replaces every \<open>a\<close> by \<open>aa\<close>.\<close>

definition doubling_scenario :: "ptr \<times> state" where
  "doubling_scenario =
     (case NewLogger ''app'' InfoLevel start of
        (root, s1) \<Rightarrow>
          (root, AddRedaction root (char_regexp CHR ''a'') ''aa''
                   (AddConsoleHandler root DebugLevel True s1)))"

text \<open>A logger configured with a console sink and the redacted field key \<open>password\<close>.\<close>

definition password_config :: Config where
  "password_config =
     \<lparr>cfg_Name = ''app'', cfg_Level = InfoLevel, cfg_Development = False,
      cfg_ConsoleLevel = Some InfoLevel, cfg_FileConfig = [], cfg_RedactRegex = [],
      cfg_RedactFields = [''password'']\<rparr>"

definition password_scenario :: "(string + ptr) \<times> state" where
  "password_scenario = NewLoggerWithConfig password_config start"

text \<open>
  A root logger with the rule \<open>a \<mapsto> b\<close>; a child derived from it, and a console sink
  registered on the child; then the rule \<open>b \<mapsto> c\<close> added to the root. The result is the
  root, the child and the state.
\<close>

definition sink_on_child_scenario :: "ptr \<times> ptr \<times> state" where
  "sink_on_child_scenario =
     (case NewLogger ''app'' InfoLevel start of
        (root, s1) \<Rightarrow>
          (case Child root ''auth'' (AddRedaction root (char_regexp CHR ''a'') ''b'' s1) of
             (child, s2) \<Rightarrow>
               (root, child,
                AddRedaction root (char_regexp CHR ''b'') ''c''
                  (AddConsoleHandler child DebugLevel True s2))))"

text \<open>
  The root logger, at address 0, with the rule \<open>a \<mapsto> b\<close>; the same with a console sink
  registered on it; the root without a sink, a logger derived from it by \<open>WithContext\<close>
  at address 1, and a console sink registered on the derived logger.
\<close>

definition one_rule :: state where
  "one_rule = AddRedaction 0 (char_regexp CHR ''a'') ''b'' (snd (NewLogger ''app'' InfoLevel start))"

definition sink_on_parent :: state where
  "sink_on_parent = AddConsoleHandler 0 DebugLevel True one_rule"

definition sink_on_derived :: state where
  "sink_on_derived =
     AddConsoleHandler 1 DebugLevel True
       (snd (WithContext 0 [(''request_id'', VString ''req-1'')] one_rule))"

text \<open>A root logger with a console sink at \<open>DebugLevel\<close>.\<close>

definition two_maps_scenario :: "ptr \<times> state" where
  "two_maps_scenario =
     (case NewLogger ''app'' InfoLevel start of
        (root, s1) \<Rightarrow> (root, AddConsoleHandler root DebugLevel True s1))"

text \<open>A root logger with a console sink.\<close>

definition collision_scenario :: "ptr \<times> state" where
  "collision_scenario =
     (case NewLogger ''app'' InfoLevel start of
        (root, s1) \<Rightarrow> (root, AddConsoleHandler root DebugLevel True s1))"

text \<open>A root logger named \<open>app\<close> with a console sink at \<open>InfoLevel\<close>, and its child \<open>auth\<close>.\<close>

definition child_scenario :: "ptr \<times> state" where
  "child_scenario =
     (case NewLogger ''app'' InfoLevel start of
        (root, s1) \<Rightarrow> Child root ''auth'' (AddConsoleHandler root InfoLevel False s1))"

section \<open>What a verb hands to the sinks\<close>

lemmas scenario_simps =
  start_def NewLogger_def Child_def WithContext_def AddConsoleHandler_def AddFileHandler_def
  AddRedaction_def SetLevel_def NewLoggerWithConfig_def createFieldRedactorCore_def
  multiCoreSyncWrapper_AddCore_def createRedactingCore_def
  Debug_def Info_def Warn_def Error_def Fatal_def logAt_def zap_log_def zap_check_def
  CheckedEntry_Write_def CheckedEntry_After_def AddCore_def redactMessage_def
  delivered_def zap_String_def zap_Any_def char_regexp_def Let_def

lemma Level_Core_seen: "Level (Core_seen s c ent) = Level ent"
  by (induction c arbitrary: ent) simp_all

text \<open>A core's \<open>Check\<close> adds the innermost core, with the entry that core receives.\<close>

lemma Core_Check_eq:
  "Core_Check s c ent ce =
     (if Core_Enabled c (Level ent) then AddCore (Core_seen s c ent) (Core_leaf c) ce else ce)"
  by (induction c arbitrary: ent) (simp_all add: Let_def)

lemma Check_from_Some:
  "multiCoreSyncWrapper_Check s cs ent (Some ce) =
     Some (ce\<lparr>ce_cores := ce_cores ce @ map Core_leaf (filter (\<lambda>c. Core_Enabled c (Level ent)) cs)\<rparr>)"
  by (induction cs arbitrary: ce) (simp_all add: Core_Check_eq AddCore_def)

text \<open>The checked entry keeps the entry of the first core that accepts the level.\<close>

lemma Check_from_None:
  "multiCoreSyncWrapper_Check s cs ent None =
     (case filter (\<lambda>c. Core_Enabled c (Level ent)) cs of
        [] \<Rightarrow> None
      | c # rest \<Rightarrow> Some \<lparr>ce_Entry = Core_seen s c ent, ce_cores = map Core_leaf (c # rest),
                          ce_after = WriteThenNoop\<rparr>)"
  by (induction cs) (simp_all add: Core_Check_eq AddCore_def Check_from_Some)

lemma Enabled_iff_filter:
  "multiCoreSyncWrapper_Enabled cs lvl \<longleftrightarrow> filter (\<lambda>c. Core_Enabled c lvl) cs \<noteq> []"
  by (induction cs) simp_all

lemma calls_Core_Write_leaf:
  "calls (snd (Core_Write (Core_leaf c) ent fs s)) =
     calls s @ map (\<lambda>d. \<lparr>w_dest = d, w_entry = ent, w_fields = fs\<rparr>) (Core_dests c)"
  by (induction c) simp_all

lemma calls_writeCores:
  "calls (snd (writeCores (map Core_leaf cs) ent fs err s)) =
     calls s @ map (\<lambda>d. \<lparr>w_dest = d, w_entry = ent, w_fields = fs\<rparr>) (concat (map Core_dests cs))"
proof (induction cs arbitrary: err s)
  case Nil
  show ?case by simp
next
  case (Cons c cs)
  obtain e s' where w: "Core_Write (Core_leaf c) ent fs s = (e, s')"
    by (cases "Core_Write (Core_leaf c) ent fs s")
  have "calls s' = calls s @ map (\<lambda>d. \<lparr>w_dest = d, w_entry = ent, w_fields = fs\<rparr>) (Core_dests c)"
    using calls_Core_Write_leaf [of c ent fs s] w by simp
  then show ?case
    using w Cons.IH by (cases e) simp_all
qed

lemma calls_CheckedEntry_Write:
  "calls (CheckedEntry_Write \<lparr>ce_Entry = ent, ce_cores = map Core_leaf cs, ce_after = a\<rparr> fs s) =
     calls s @ map (\<lambda>d. \<lparr>w_dest = d, w_entry = ent, w_fields = fs\<rparr>) (concat (map Core_dests cs))"
proof -
  obtain err s' where w: "writeCores (map Core_leaf cs) ent fs [] s = (err, s')"
    by (cases "writeCores (map Core_leaf cs) ent fs [] s")
  have "calls s' = calls s @ map (\<lambda>d. \<lparr>w_dest = d, w_entry = ent, w_fields = fs\<rparr>) (concat (map Core_dests cs))"
    using calls_writeCores [of cs ent fs "[]" s] w by simp
  then show ?thesis
    using w by (simp add: CheckedEntry_Write_def Let_def)
qed

lemma zap_check_eq:
  "zap_check s log lvl msg =
     (case filter (\<lambda>c. Core_Enabled c lvl) (wrappers s (zl_core log)) of
        [] \<Rightarrow>
          (if lvl = FatalLevel
           then Some \<lparr>ce_Entry = \<lparr>Level = lvl, LoggerName = [], Message = msg\<rparr>,
                       ce_cores = map Core_leaf [], ce_after = WriteThenFatal\<rparr>
           else None)
      | c # rest \<Rightarrow>
          Some \<lparr>ce_Entry = Core_seen s c \<lparr>Level = lvl, LoggerName = [], Message = msg\<rparr>,
                 ce_cores = map Core_leaf (c # rest),
                 ce_after = (if lvl = FatalLevel then WriteThenFatal else WriteThenNoop)\<rparr>)"
proof (cases "lvl = FatalLevel")
  case True
  show ?thesis
    unfolding True
    by (cases "filter (\<lambda>c. Core_Enabled c FatalLevel) (wrappers s (zl_core log))")
       (simp_all add: zap_check_def Check_from_None CheckedEntry_After_def)
next
  case False
  then show ?thesis
    by (cases "filter (\<lambda>c. Core_Enabled c lvl) (wrappers s (zl_core log))")
       (simp_all add: zap_check_def Enabled_iff_filter Check_from_None)
qed

text \<open>
  What a zap verb delivers: every core that accepts the level is written once, in
  registration order, each with the entry as the first of them received it.
\<close>

lemma delivered_zap_log:
  "delivered s (zap_log log lvl msg fs s) =
     (case filter (\<lambda>c. Core_Enabled c lvl) (wrappers s (zl_core log)) of
        [] \<Rightarrow> []
      | c # rest \<Rightarrow>
          map (\<lambda>d. \<lparr>w_dest = d,
                    w_entry = Core_seen s c \<lparr>Level = lvl, LoggerName = [], Message = msg\<rparr>,
                    w_fields = fs\<rparr>)
            (concat (map Core_dests (c # rest))))"
proof (cases "filter (\<lambda>c. Core_Enabled c lvl) (wrappers s (zl_core log))")
  case Nil
  then show ?thesis
    by (simp add: zap_log_def zap_check_eq calls_CheckedEntry_Write delivered_def
        del: list.map)
next
  case (Cons c rest)
  then show ?thesis
    by (simp add: zap_log_def zap_check_eq calls_CheckedEntry_Write delivered_def
        del: list.map)
qed

lemma Core_dests_Enabled: "Core_Enabled c lvl \<Longrightarrow> Core_dests c \<noteq> []"
  by (induction c) simp_all

lemma appendFields_eq: "appendFields allFields m = allFields @ map (\<lambda>(k, v). zap_Any k v) m"
  by (induction allFields m rule: appendFields.induct) simp_all

lemma verbs_logAt: "(verb, lvl) \<in> verbs \<Longrightarrow> verb = logAt lvl"
  by (auto simp: verbs_def fun_eq_iff Debug_def Info_def Warn_def Error_def Fatal_def)

lemma delivered_logAt:
  "delivered s (logAt lvl l msg fs s) =
     (case filter (\<lambda>c. Core_Enabled c lvl) (wrappers s (zl_core (l_Logger (loggers s l)))) of
        [] \<Rightarrow> []
      | c # rest \<Rightarrow>
          map (\<lambda>d. \<lparr>w_dest = d,
                    w_entry = Core_seen s c \<lparr>Level = lvl, LoggerName = [],
                                Message = redactMessage (loggers s l) msg\<rparr>,
                    w_fields = l_context (loggers s l) @ callFields fs\<rparr>)
            (concat (map Core_dests (c # rest))))"
proof -
  have "(case fs of Some m # _ \<Rightarrow> appendFields ([] @ l_context (loggers s l)) m
         | _ \<Rightarrow> [] @ l_context (loggers s l)) = l_context (loggers s l) @ callFields fs"
    by (simp add: callFields_def appendFields_eq split: list.splits option.splits)
  then show ?thesis
    by (simp add: logAt_def Let_def delivered_zap_log del: append.simps)
qed

lemma delivered_logAt_nonempty:
  assumes "multiCoreSyncWrapper_Enabled (wrappers s (zl_core (l_Logger (loggers s l)))) lvl"
  shows "delivered s (logAt lvl l msg fs s) \<noteq> []"
proof -
  have ne: "filter (\<lambda>c. Core_Enabled c lvl)
              (wrappers s (zl_core (l_Logger (loggers s l)))) \<noteq> []"
    using assms by (simp add: Enabled_iff_filter)
  obtain c0 rest where
    f: "filter (\<lambda>c. Core_Enabled c lvl) (wrappers s (zl_core (l_Logger (loggers s l)))) =
          c0 # rest"
    using ne by (meson neq_Nil_conv)
  then have "c0 \<in> set (filter (\<lambda>c. Core_Enabled c lvl)
                (wrappers s (zl_core (l_Logger (loggers s l)))))"
    by simp
  then have "Core_dests c0 \<noteq> []"
    using Core_dests_Enabled [of c0 lvl] by simp
  with f show ?thesis
    by (simp add: delivered_logAt)
qed

lemma w_fields_delivered_logAt:
  "w \<in> set (delivered s (logAt lvl l msg fs s)) \<Longrightarrow>
   w_fields w = l_context (loggers s l) @ callFields fs"
  by (auto simp: delivered_logAt split: list.splits)

lemma Core_seen_cong:
  "loggers s' = loggers s \<Longrightarrow> Core_seen s' c ent = Core_seen s c ent"
  by (induction c arbitrary: ent) simp_all

lemma find_filter: "find P xs = Some c \<Longrightarrow> \<exists>rest. filter P xs = c # rest"
  by (induction xs) (auto split: if_splits)

section \<open>Text redaction\<close>

lemma redactLoop_foldl: "redactLoop rs m = foldl (\<lambda>m r. regex r m (replacement r)) m rs"
  by (induction rs arbitrary: m) simp_all

lemma redactLoop_append: "redactLoop (rs @ rs') m = redactLoop rs' (redactLoop rs m)"
  by (induction rs arbitrary: m) simp_all

lemma redactions_fold_AddRedaction:
  "l_redactions (loggers (fold (\<lambda>r. AddRedaction l (regex r) (replacement r)) rules s) l) =
     l_redactions (loggers s l) @ rules"
  by (induction rules arbitrary: s) (simp_all add: AddRedaction_def)

text \<open>
  C4. For every message and every rule list, \<open>redactMessage\<close> is the sequential fold of
  the rules: the first rule is applied to the message, the second to the result, and so
  on. The order is the order of registration: after \<open>AddRedaction\<close> has registered
  \<open>rules\<close> one by one on the logger at \<open>l\<close>, its \<open>redactMessage\<close> applies them, in that
  order, to what the rules it had before produce.
\<close>

theorem redactMessage_sequential:
  "redactMessage L M = RedactText (l_redactions L) M \<and>
   redactMessage (loggers (fold (\<lambda>r. AddRedaction l (regex r) (replacement r)) rules s) l) M =
     RedactText rules (redactMessage (loggers s l) M)"
  by (simp add: redactMessage_def RedactText_def redactLoop_foldl redactions_fold_AddRedaction)

text \<open>
  The rules compose: with \<open>a \<mapsto> b\<close> registered before \<open>b \<mapsto> c\<close>, the second rule also
  rewrites what the first produced.
\<close>

lemma redactMessage_rules_compose:
  "redactMessage
     (L\<lparr>l_redactions := [\<lparr>regex = char_regexp CHR ''a'', replacement = ''b''\<rparr>,
                         \<lparr>regex = char_regexp CHR ''b'', replacement = ''c''\<rparr>]\<rparr>) ''ab'' = ''cc''"
  by (simp add: redactMessage_def char_regexp_def)

section \<open>The sink registry\<close>

text \<open>
  C5. For every severity \<open>S\<close>, \<open>Enabled\<close> of the registry is false when the registry has
  no sink, and it is true exactly when at least one registered sink accepts \<open>S\<close>.
\<close>

theorem Enabled_iff_some_sink:
  "multiCoreSyncWrapper_Enabled [] S = False \<and>
   (multiCoreSyncWrapper_Enabled cores S \<longleftrightarrow> (\<exists>core \<in> set cores. Core_Enabled core S))"
  by (induction cores) auto

theorem Enabled_iff_some_sink_witness:
  "multiCoreSyncWrapper_Enabled [] WarnLevel = False \<and>
   multiCoreSyncWrapper_Enabled
     [RedactingCore (IoCore JSONEncoder (File ''app.log'') (\<lambda>lvl. lvl \<ge> ErrorLevel)) 0,
      RedactingCore (IoCore ConsoleEncoder Stdout (\<lambda>lvl. lvl \<ge> InfoLevel)) 0] WarnLevel \<and>
   Core_Enabled (RedactingCore (IoCore ConsoleEncoder Stdout (\<lambda>lvl. lvl \<ge> InfoLevel)) 0) WarnLevel"
  using Enabled_iff_some_sink
    [of WarnLevel "[RedactingCore (IoCore JSONEncoder (File ''app.log'') (\<lambda>lvl. lvl \<ge> ErrorLevel)) 0,
      RedactingCore (IoCore ConsoleEncoder Stdout (\<lambda>lvl. lvl \<ge> InfoLevel)) 0]"]
  by simp

lemma dest_err_Core_Write: "dest_err (snd (Core_Write c ent fs s)) = dest_err s"
  by (induction c arbitrary: fs) simp_all

text \<open>Whether a core's \<open>Write\<close> fails depends on the outside world only.\<close>

lemma fst_Core_Write_cong:
  "dest_err s' = dest_err s \<Longrightarrow> fst (Core_Write c ent fs s') = fst (Core_Write c ent fs s)"
  by (induction c arbitrary: fs) simp_all

lemma Write_all_succeed:
  "\<forall>c \<in> set cs. fst (Core_Write c ent fs s0) = None \<Longrightarrow> dest_err s = dest_err s0 \<Longrightarrow>
   multiCoreSyncWrapper_Write cs ent fs s = (None, writeEach cs ent fs s)"
proof (induction cs arbitrary: s)
  case Nil
  show ?case by (simp add: writeEach_def)
next
  case (Cons c cs)
  obtain e s' where w: "Core_Write c ent fs s = (e, s')"
    by (cases "Core_Write c ent fs s")
  have "fst (Core_Write c ent fs s) = None"
    using Cons.prems fst_Core_Write_cong [of s s0 c ent fs] by simp
  with w have e: "e = None" by simp
  have "dest_err s' = dest_err s0"
    using dest_err_Core_Write [of c ent fs s] w Cons.prems(2) by simp
  with Cons have "multiCoreSyncWrapper_Write cs ent fs s' = (None, writeEach cs ent fs s')"
    by simp
  with w e show ?case by (simp add: writeEach_def)
qed

lemma Write_append:
  "multiCoreSyncWrapper_Write pre ent fs s = (None, s') \<Longrightarrow>
   multiCoreSyncWrapper_Write (pre @ cs) ent fs s = multiCoreSyncWrapper_Write cs ent fs s'"
  by (induction pre arbitrary: s) (auto split: prod.splits option.splits)

lemma dest_err_writeEach: "dest_err (writeEach cs ent fs s) = dest_err s"
  by (induction cs arbitrary: s) (simp_all add: writeEach_def dest_err_Core_Write)

text \<open>
  C6. For every record and every sink list, \<open>Write\<close> of the registry visits the sinks in
  registration order. When no sink of a list fails, \<open>Write\<close> is invoked on each of them
  once, in order, and no error is returned. When the sinks \<open>pre\<close> before a sink do not
  fail and that sink's \<open>Write\<close> fails with \<open>err\<close>, the registry returns \<open>err\<close> in the
  state that sink's \<open>Write\<close> leaves: \<open>Write\<close> is invoked on no sink of \<open>post\<close>, whatever
  \<open>post\<close> holds.
\<close>

theorem Write_stops_at_first_error:
  "(\<forall>c \<in> set pre. fst (Core_Write c ent fs s) = None) \<longrightarrow>
     multiCoreSyncWrapper_Write pre ent fs s = (None, writeEach pre ent fs s) \<and>
     (fst (Core_Write core ent fs s) = Some err \<longrightarrow>
        multiCoreSyncWrapper_Write (pre @ core # post) ent fs s =
          (Some err, snd (Core_Write core ent fs (writeEach pre ent fs s))))"
proof (intro impI conjI)
  assume ok: "\<forall>c \<in> set pre. fst (Core_Write c ent fs s) = None"
  then show all: "multiCoreSyncWrapper_Write pre ent fs s = (None, writeEach pre ent fs s)"
    by (simp add: Write_all_succeed)
  assume bad: "fst (Core_Write core ent fs s) = Some err"
  have "fst (Core_Write core ent fs (writeEach pre ent fs s)) = Some err"
    using bad fst_Core_Write_cong [of "writeEach pre ent fs s" s core ent fs]
    by (simp add: dest_err_writeEach)
  then show "multiCoreSyncWrapper_Write (pre @ core # post) ent fs s =
          (Some err, snd (Core_Write core ent fs (writeEach pre ent fs s)))"
    using Write_append [OF all, of "core # post"]
    by (cases "Core_Write core ent fs (writeEach pre ent fs s)") simp
qed

text \<open>
  Three sinks, the second of which fails: the error is the second sink's, and the trace
  holds the writes to the first and the second sink only.
\<close>

theorem Write_stops_at_first_error_witness:
  "fst (Core_Write (sink Stdout) hello [] disk_full) = None \<and>
   fst (Core_Write (sink (File ''a.log'')) hello [] disk_full) = Some ''disk full'' \<and>
   multiCoreSyncWrapper_Write [sink Stdout] hello [] disk_full =
     (None, writeEach [sink Stdout] hello [] disk_full) \<and>
   fst (multiCoreSyncWrapper_Write [sink Stdout, sink (File ''a.log''), sink (File ''b.log'')]
          hello [] disk_full) = Some ''disk full'' \<and>
   map w_dest (calls (snd (multiCoreSyncWrapper_Write
          [sink Stdout, sink (File ''a.log''), sink (File ''b.log'')] hello [] disk_full))) =
     [Stdout, File ''a.log'']"
  using Write_stops_at_first_error
    [of "[sink Stdout]" hello "[]" disk_full "sink (File ''a.log'')" "''disk full''"
        "[sink (File ''b.log'')]"]
  by (simp add: sink_def disk_full_def start_def writeEach_def)

section \<open>The logging verbs\<close>

text \<open>
  C1. The specification says that after \<open>SetLevel(Warn)\<close> on the root an \<open>Info\<close> call on
  a child derived before is a no-op. In the run of the demonstration program the cell of
  the shared atomic level does hold \<open>WarnLevel\<close> after \<open>SetLevel\<close>, as seen from the
  child, and the child's \<open>Info\<close> call is still written to the console sink: no verb
  reads the cell.
\<close>

theorem SetLevel_does_not_silence_Info:
  "levels (snd threshold_scenario)
     (l_atomicLevel (loggers (snd threshold_scenario) (fst threshold_scenario))) = WarnLevel \<and>
   delivered (snd threshold_scenario)
     (Info (fst threshold_scenario) ''hello'' [] (snd threshold_scenario)) =
     [\<lparr>w_dest = Stdout,
       w_entry = \<lparr>Level = InfoLevel, LoggerName = [], Message = ''hello''\<rparr>,
       w_fields = [zap_String ''logger'' ''app.auth'']\<rparr>]"
  by (simp add: threshold_scenario_def scenario_simps)

text \<open>
  This does not depend on the run: in every state, what a verb hands to the sinks after
  a \<open>SetLevel\<close> is what it hands to them without it.
\<close>

lemma SetLevel_never_consulted:
  "delivered (SetLevel r level s) (logAt lvl l msg fs (SetLevel r level s)) =
     delivered s (logAt lvl l msg fs s)"
proof -
  have same: "loggers (SetLevel r level s) = loggers s" "wrappers (SetLevel r level s) = wrappers s"
    by (simp_all add: SetLevel_def)
  have "Core_seen (SetLevel r level s) c ent = Core_seen s c ent" for c ent
    using same(1) by (rule Core_seen_cong)
  then show ?thesis
    by (simp add: delivered_logAt same cong: list.case_cong)
qed

text \<open>
  C2, as the specification states it, fails: with the rule \<open>a \<mapsto> aa\<close>, one pass over the
  message \<open>a\<close> gives \<open>aa\<close>, and the console sink receives \<open>aaaa\<close>.
\<close>

theorem message_redacted_twice_counterexample:
  "redactMessage (loggers (snd doubling_scenario) (fst doubling_scenario)) ''a'' = ''aa'' \<and>
   map (Message \<circ> w_entry)
     (delivered (snd doubling_scenario)
        (Info (fst doubling_scenario) ''a'' [] (snd doubling_scenario))) = [''aaaa'']"
  by (simp add: doubling_scenario_def scenario_simps)

text \<open>
  C2, amended. For every verb call on a logger \<open>l\<close>, when the first registered sink that
  accepts the verb's level is an output core wrapped by the \<open>redactingCore\<close> of a logger
  \<open>r\<close>, a record is handed to the sinks, and the message of every record handed to a
  sink is the message passed through the text rules of \<open>l\<close> by the verb and then through
  the text rules of \<open>r\<close> by that sink's \<open>Check\<close>.
\<close>

theorem verb_message_redacted_again_by_first_sink:
  assumes "(verb, lvl) \<in> verbs"
    and "find (\<lambda>c. Core_Enabled c lvl) (wrappers s (zl_core (l_Logger (loggers s l)))) =
           Some (RedactingCore (IoCore enc out enab) r)"
  shows "delivered s (verb l msg fs s) \<noteq> [] \<and>
         (\<forall>w \<in> set (delivered s (verb l msg fs s)).
            Message (w_entry w) = redactMessage (loggers s r) (redactMessage (loggers s l) msg))"
proof -
  obtain rest where
    "filter (\<lambda>c. Core_Enabled c lvl) (wrappers s (zl_core (l_Logger (loggers s l)))) =
       RedactingCore (IoCore enc out enab) r # rest"
    using find_filter [OF assms(2)] by blast
  then show ?thesis
    using verbs_logAt [OF assms(1)] by (auto simp: delivered_logAt)
qed

theorem verb_message_redacted_again_by_first_sink_witness:
  "(Info, InfoLevel) \<in> verbs \<and>
   find (\<lambda>c. Core_Enabled c InfoLevel)
     (wrappers (snd doubling_scenario)
        (zl_core (l_Logger (loggers (snd doubling_scenario) (fst doubling_scenario))))) =
     Some (RedactingCore (IoCore ConsoleEncoder Stdout (\<lambda>lvl. lvl \<ge> DebugLevel))
             (fst doubling_scenario)) \<and>
   map (Message \<circ> w_entry)
     (delivered (snd doubling_scenario)
        (Info (fst doubling_scenario) ''a.a'' [] (snd doubling_scenario))) =
     [redactMessage (loggers (snd doubling_scenario) (fst doubling_scenario))
        (redactMessage (loggers (snd doubling_scenario) (fst doubling_scenario)) ''a.a'')] \<and>
   redactMessage (loggers (snd doubling_scenario) (fst doubling_scenario))
     (redactMessage (loggers (snd doubling_scenario) (fst doubling_scenario)) ''a.a'') =
     ''aaaa.aaaa''"
  using verb_message_redacted_again_by_first_sink
    [of Info InfoLevel "snd doubling_scenario" "fst doubling_scenario" ConsoleEncoder Stdout
        "\<lambda>lvl. lvl \<ge> DebugLevel" "fst doubling_scenario" "''a.a''" "[]"]
  by (simp add: doubling_scenario_def verbs_def scenario_simps)

text \<open>
  C3. The specification says that with the field-key redaction set \<open>{password}\<close> every
  sink receives the field \<open>password\<close> with the sentinel value. The logger that
  \<open>NewLoggerWithConfig\<close> builds holds the console sink and, after it, the field
  redactor wrapped around a no-op core; the call of the scenario hands the console sink
  the field \<open>password\<close> with the value \<open>secret123\<close>.
\<close>

theorem password_field_reaches_sink_unredacted:
  "fst password_scenario = Inr 0 \<and>
   wrappers (snd password_scenario) (l_coreWrapper (loggers (snd password_scenario) 0)) =
     [RedactingCore (IoCore JSONEncoder Stdout (\<lambda>lvl. lvl \<ge> InfoLevel)) 0,
      FieldRedactingCore NopCore {''password''}] \<and>
   delivered (snd password_scenario)
     (Info 0 ''login'' [Some [(''password'', VString ''secret123''), (''user'', VString ''alice'')]]
        (snd password_scenario)) =
     [\<lparr>w_dest = Stdout,
       w_entry = \<lparr>Level = InfoLevel, LoggerName = [], Message = ''login''\<rparr>,
       w_fields = [zap_String ''logger'' ''app'', zap_String ''password'' ''secret123'',
                   zap_String ''user'' ''alice'']\<rparr>]"
  by (simp add: password_scenario_def password_config_def scenario_simps)

text \<open>
  In every state, registering the field redactor changes nothing in what a verb hands
  to the sinks: the no-op core it wraps accepts no level, so it is never added to a
  checked entry and its \<open>Write\<close> is never invoked.
\<close>

lemma field_redactor_takes_no_part:
  "delivered (multiCoreSyncWrapper_AddCore m (createFieldRedactorCore r keys) s)
     (logAt lvl l msg fs (multiCoreSyncWrapper_AddCore m (createFieldRedactorCore r keys) s)) =
   delivered s (logAt lvl l msg fs s)"
proof -
  let ?s = "multiCoreSyncWrapper_AddCore m (createFieldRedactorCore r keys) s"
  have same: "loggers ?s = loggers s"
    by (simp add: multiCoreSyncWrapper_AddCore_def)
  have seen: "Core_seen ?s c ent = Core_seen s c ent" for c ent
    using same by (rule Core_seen_cong)
  have accepting: "filter (\<lambda>c. Core_Enabled c lvl) (wrappers ?s w) =
                     filter (\<lambda>c. Core_Enabled c lvl) (wrappers s w)" for w
    by (simp add: multiCoreSyncWrapper_AddCore_def createFieldRedactorCore_def)
  show ?thesis
    by (simp add: delivered_logAt same seen accepting cong: list.case_cong)
qed

text \<open>
  C8, as the specification states it, fails: a caller-supplied field with the key
  \<open>logger\<close> does not replace the context field with that key; the record holds both.
\<close>

theorem colliding_key_emitted_twice_counterexample:
  "map w_fields
     (delivered (snd collision_scenario)
        (Info (fst collision_scenario) ''m'' [Some [(''logger'', VString ''x'')]]
           (snd collision_scenario))) =
     [[zap_String ''logger'' ''app'', zap_Any ''logger'' (VString ''x'')]]"
  by (simp add: collision_scenario_def scenario_simps)

text \<open>
  C8, amended. For every verb call, the field list of every record handed to a sink is
  the logger's context fields, in order, followed by one field for each entry of the
  first supplied map, in the order of the map's iteration. Nothing is merged by key: a
  caller-supplied key that equals a context key gives a record with both fields, the
  context field before the caller-supplied one.
\<close>

theorem record_fields_are_context_then_call_fields:
  assumes "(verb, lvl) \<in> verbs"
  shows "\<forall>w \<in> set (delivered s (verb l msg fs s)).
           w_fields w = l_context (loggers s l) @ callFields fs"
  using verbs_logAt [OF assms]
  by (auto simp: delivered_logAt split: list.splits)

theorem record_fields_are_context_then_call_fields_witness:
  "(Info, InfoLevel) \<in> verbs \<and>
   map w_fields
     (delivered (snd collision_scenario)
        (Info (fst collision_scenario) ''m'' [Some [(''logger'', VString ''x'')]]
           (snd collision_scenario))) =
     [l_context (loggers (snd collision_scenario) (fst collision_scenario)) @
      callFields [Some [(''logger'', VString ''x'')]]] \<and>
   map Key (l_context (loggers (snd collision_scenario) (fst collision_scenario)) @
      callFields [Some [(''logger'', VString ''x'')]]) = [''logger'', ''logger'']"
  using record_fields_are_context_then_call_fields
    [of Info InfoLevel "snd collision_scenario" "fst collision_scenario" "''m''"
        "[Some [(''logger'', VString ''x'')]]"]
  by (simp add: collision_scenario_def verbs_def callFields_def scenario_simps)

text \<open>
  C10. Every verb takes any number of field maps and incorporates the first one only.
  A call with further maps has the effect of the call with the first map alone; the
  records it hands to the sinks carry the context fields followed by the fields of the
  first map, in the order of its iteration, or the context fields alone when the first
  map is nil, whatever the further maps hold; and it does hand a record over as soon
  as one sink accepts the verb's level.
\<close>

theorem only_first_field_map_used:
  assumes "(verb, lvl) \<in> verbs"
  shows "verb l msg (m # rest) s = verb l msg [m] s \<and>
         (\<forall>w \<in> set (delivered s (verb l msg (Some fm # rest) s)).
            w_fields w = l_context (loggers s l) @ map (\<lambda>(k, v). zap_Any k v) fm) \<and>
         (\<forall>w \<in> set (delivered s (verb l msg (None # rest) s)).
            w_fields w = l_context (loggers s l)) \<and>
         (multiCoreSyncWrapper_Enabled (wrappers s (zl_core (l_Logger (loggers s l)))) lvl \<longrightarrow>
            delivered s (verb l msg (m # rest) s) \<noteq> [])"
proof -
  have v: "verb = logAt lvl"
    using assms by (rule verbs_logAt)
  have "logAt lvl l msg (m # rest) s = logAt lvl l msg [m] s"
    by (simp add: logAt_def split: option.splits)
  moreover have "\<forall>w \<in> set (delivered s (logAt lvl l msg (Some fm # rest) s)).
            w_fields w = l_context (loggers s l) @ map (\<lambda>(k, v). zap_Any k v) fm"
    using w_fields_delivered_logAt [of _ s lvl l msg "Some fm # rest"]
    by (simp add: callFields_def)
  moreover have "\<forall>w \<in> set (delivered s (logAt lvl l msg (None # rest) s)).
            w_fields w = l_context (loggers s l)"
    using w_fields_delivered_logAt [of _ s lvl l msg "None # rest"]
    by (simp add: callFields_def)
  moreover have "multiCoreSyncWrapper_Enabled (wrappers s (zl_core (l_Logger (loggers s l)))) lvl \<longrightarrow>
            delivered s (logAt lvl l msg (m # rest) s) \<noteq> []"
    by (simp add: delivered_logAt_nonempty)
  ultimately show ?thesis
    unfolding v by blast
qed

text \<open>
  A \<open>Warn\<close> call with two maps on a logger with a console sink: one record is written,
  with the field of the first map and without the field of the second; with a nil first
  map the record has the context field alone.
\<close>

theorem only_first_field_map_used_witness:
  "(Warn, WarnLevel) \<in> verbs \<and>
   multiCoreSyncWrapper_Enabled
     (wrappers (snd two_maps_scenario)
        (zl_core (l_Logger (loggers (snd two_maps_scenario) (fst two_maps_scenario))))) WarnLevel \<and>
   Warn (fst two_maps_scenario) ''m''
     [Some [(''user_id'', VInt 7)], Some [(''status'', VInt 200)]] (snd two_maps_scenario) =
   Warn (fst two_maps_scenario) ''m'' [Some [(''user_id'', VInt 7)]] (snd two_maps_scenario) \<and>
   map w_fields
     (delivered (snd two_maps_scenario)
        (Warn (fst two_maps_scenario) ''m''
           [Some [(''user_id'', VInt 7)], Some [(''status'', VInt 200)]] (snd two_maps_scenario))) =
     [[zap_String ''logger'' ''app'', zap_Any ''user_id'' (VInt 7)]] \<and>
   map w_fields
     (delivered (snd two_maps_scenario)
        (Warn (fst two_maps_scenario) ''m''
           [None, Some [(''status'', VInt 200)]] (snd two_maps_scenario))) =
     [[zap_String ''logger'' ''app'']]"
  using only_first_field_map_used
    [of Warn WarnLevel "fst two_maps_scenario" "''m''" "Some [(''user_id'', VInt 7)]"
        "[Some [(''status'', VInt 200)]]" "snd two_maps_scenario" "[(''user_id'', VInt 7)]"]
  by (simp add: two_maps_scenario_def verbs_def scenario_simps)

section \<open>Derived loggers\<close>

text \<open>
  C7, as the specification states it, fails. The root has the rule \<open>a \<mapsto> b\<close> when the
  child is derived, the sink is registered on the child, and the rule \<open>b \<mapsto> c\<close> is added
  to the root afterwards. The root then redacts \<open>ab\<close> to \<open>cc\<close>; the child redacts it to
  \<open>bb\<close>, and \<open>bb\<close> is the message of the record the child's \<open>Info\<close> call hands to the
  sink: the late rule is applied nowhere.
\<close>

theorem late_rule_missing_from_child_record_counterexample:
  "redactMessage (loggers (snd (snd sink_on_child_scenario)) (fst sink_on_child_scenario)) ''ab'' =
     ''cc'' \<and>
   redactMessage (loggers (snd (snd sink_on_child_scenario)) (fst (snd sink_on_child_scenario)))
     ''ab'' = ''bb'' \<and>
   map (Message \<circ> w_entry)
     (delivered (snd (snd sink_on_child_scenario))
        (Info (fst (snd sink_on_child_scenario)) ''ab'' [] (snd (snd sink_on_child_scenario)))) =
     [''bb'']"
  by (simp add: sink_on_child_scenario_def scenario_simps)

text \<open>
  C7, amended. A logger \<open>c\<close> derived from \<open>l\<close> by \<open>Child\<close> or \<open>WithContext\<close> does not
  share the rule list: it holds its own copy of the parent's text rules, taken at the
  derivation. Let sinks be registered after the derivation (state \<open>t\<close>, with the loggers
  the derivation left), and a rule be added to the parent then. The derived logger's
  rule list is still the parent's list at the derivation, so its own pass redacts as the
  parent did at the derivation, while the parent applies the new rule after its earlier
  ones. A verb call on the derived logger whose first accepting sink is an output core
  wrapped by the \<open>redactingCore\<close> of a logger \<open>r\<close> hands a record to the sinks. When
  \<open>r\<close> is the parent, the late rule is applied to the message of every record, by the
  sink's pass and after the rules of the derivation have been applied twice; when \<open>r\<close>
  is the derived logger, the late rule is not applied.
\<close>

theorem derived_logger_copies_rules:
  assumes "l < nlog s"
    and "Child l nm s = (c, s1) \<or> WithContext l fm s = (c, s1)"
    and "loggers t = loggers s1"
    and "(verb, lvl) \<in> verbs"
    and "find (\<lambda>k. Core_Enabled k lvl) (wrappers t (zl_core (l_Logger (loggers t c)))) =
           Some (RedactingCore (IoCore enc out enab) r)"
  shows "l_redactions (loggers (AddRedaction l rx repl t) c) = l_redactions (loggers s l) \<and>
         redactMessage (loggers (AddRedaction l rx repl t) c) M = redactMessage (loggers s l) M \<and>
         redactMessage (loggers (AddRedaction l rx repl t) l) M =
           rx (redactMessage (loggers s l) M) repl \<and>
         delivered (AddRedaction l rx repl t) (verb c M fs (AddRedaction l rx repl t)) \<noteq> [] \<and>
         (r = l \<longrightarrow>
            (\<forall>w \<in> set (delivered (AddRedaction l rx repl t)
                           (verb c M fs (AddRedaction l rx repl t))).
               Message (w_entry w) =
                 rx (redactMessage (loggers s l) (redactMessage (loggers s l) M)) repl)) \<and>
         (r = c \<longrightarrow>
            (\<forall>w \<in> set (delivered (AddRedaction l rx repl t)
                           (verb c M fs (AddRedaction l rx repl t))).
               Message (w_entry w) =
                 redactMessage (loggers s l) (redactMessage (loggers s l) M)))"
proof -
  let ?t = "AddRedaction l rx repl t"
  have c: "c = nlog s"
    using assms(2) by (auto simp: Child_def WithContext_def Let_def)
  then have cl: "c \<noteq> l"
    using assms(1) by simp
  have child: "l_redactions (loggers s1 c) = l_redactions (loggers s l)"
      "loggers s1 l = loggers s l"
    using assms(2) cl by (auto simp: Child_def WithContext_def Let_def)
  have own: "loggers ?t c = loggers t c"
    using cl by (simp add: AddRedaction_def)
  have parent: "l_redactions (loggers ?t l) =
                  l_redactions (loggers s l) @ [\<lparr>regex = rx, replacement = repl\<rparr>]"
    using child(2) assms(3) by (simp add: AddRedaction_def)
  have rules_c: "l_redactions (loggers ?t c) = l_redactions (loggers s l)"
    using own child(1) assms(3) by simp
  have red_c: "redactMessage (loggers ?t c) x = redactMessage (loggers s l) x" for x
    using rules_c by (simp add: redactMessage_def)
  have red_l: "redactMessage (loggers ?t l) x = rx (redactMessage (loggers s l) x) repl" for x
    using parent by (simp add: redactMessage_def redactLoop_append)
  have "wrappers ?t = wrappers t"
    by (simp add: AddRedaction_def)
  then have fnd:
    "find (\<lambda>k. Core_Enabled k lvl) (wrappers ?t (zl_core (l_Logger (loggers ?t c)))) =
       Some (RedactingCore (IoCore enc out enab) r)"
    using assms(5) own by simp
  obtain rest where f:
    "filter (\<lambda>k. Core_Enabled k lvl) (wrappers ?t (zl_core (l_Logger (loggers ?t c)))) =
       RedactingCore (IoCore enc out enab) r # rest"
    using find_filter [OF fnd] by blast
  have v: "verb = logAt lvl"
    using assms(4) by (rule verbs_logAt)
  have msgs: "\<forall>w \<in> set (delivered ?t (verb c M fs ?t)).
                Message (w_entry w) = redactMessage (loggers ?t r) (redactMessage (loggers ?t c) M)"
    and ne: "delivered ?t (verb c M fs ?t) \<noteq> []"
    using f unfolding v by (auto simp: delivered_logAt)
  show ?thesis
    using rules_c red_c red_l ne msgs by auto
qed

text \<open>
  Two runs in which the parent has the rule \<open>a \<mapsto> b\<close> at the derivation and gains
  \<open>b \<mapsto> c\<close> afterwards. With the sink on the parent and a child derived by \<open>Child\<close>,
  the child's \<open>Info\<close> call on \<open>ab\<close> writes \<open>cc\<close>; with the sink on a logger derived by
  \<open>WithContext\<close>, it writes \<open>bb\<close>.
\<close>

theorem derived_logger_copies_rules_witness:
  "(0::nat) < nlog sink_on_parent \<and>
   Child 0 ''auth'' sink_on_parent = (1, snd (Child 0 ''auth'' sink_on_parent)) \<and>
   (Info, InfoLevel) \<in> verbs \<and>
   find (\<lambda>k. Core_Enabled k InfoLevel)
     (wrappers (snd (Child 0 ''auth'' sink_on_parent))
        (zl_core (l_Logger (loggers (snd (Child 0 ''auth'' sink_on_parent)) 1)))) =
     Some (RedactingCore (IoCore ConsoleEncoder Stdout (\<lambda>lvl. lvl \<ge> DebugLevel)) 0) \<and>
   redactMessage (loggers sink_on_parent 0) ''ab'' = ''bb'' \<and>
   redactMessage
     (loggers (AddRedaction 0 (char_regexp CHR ''b'') ''c'' (snd (Child 0 ''auth'' sink_on_parent))) 1)
     ''ab'' = ''bb'' \<and>
   redactMessage
     (loggers (AddRedaction 0 (char_regexp CHR ''b'') ''c'' (snd (Child 0 ''auth'' sink_on_parent))) 0)
     ''ab'' = ''cc'' \<and>
   map (Message \<circ> w_entry)
     (delivered (AddRedaction 0 (char_regexp CHR ''b'') ''c'' (snd (Child 0 ''auth'' sink_on_parent)))
        (Info 1 ''ab'' []
           (AddRedaction 0 (char_regexp CHR ''b'') ''c'' (snd (Child 0 ''auth'' sink_on_parent))))) =
     [''cc''] \<and>
   (0::nat) < nlog one_rule \<and>
   WithContext 0 [(''request_id'', VString ''req-1'')] one_rule =
     (1, snd (WithContext 0 [(''request_id'', VString ''req-1'')] one_rule)) \<and>
   loggers sink_on_derived =
     loggers (snd (WithContext 0 [(''request_id'', VString ''req-1'')] one_rule)) \<and>
   find (\<lambda>k. Core_Enabled k InfoLevel)
     (wrappers sink_on_derived (zl_core (l_Logger (loggers sink_on_derived 1)))) =
     Some (RedactingCore (IoCore ConsoleEncoder Stdout (\<lambda>lvl. lvl \<ge> DebugLevel)) 1) \<and>
   map (Message \<circ> w_entry)
     (delivered (AddRedaction 0 (char_regexp CHR ''b'') ''c'' sink_on_derived)
        (Info 1 ''ab'' [] (AddRedaction 0 (char_regexp CHR ''b'') ''c'' sink_on_derived))) =
     [''bb'']"
  using derived_logger_copies_rules
    [of 0 sink_on_parent "''auth''" 1 "snd (Child 0 ''auth'' sink_on_parent)"
        "[]" "snd (Child 0 ''auth'' sink_on_parent)" Info InfoLevel
        ConsoleEncoder Stdout "\<lambda>lvl. lvl \<ge> DebugLevel" 0
        "char_regexp CHR ''b''" "''c''" "''ab''" "[]"]
    derived_logger_copies_rules
    [of 0 one_rule "''auth''" 1
        "snd (WithContext 0 [(''request_id'', VString ''req-1'')] one_rule)"
        "[(''request_id'', VString ''req-1'')]" sink_on_derived Info InfoLevel
        ConsoleEncoder Stdout "\<lambda>lvl. lvl \<ge> DebugLevel" 1
        "char_regexp CHR ''b''" "''c''" "''ab''" "[]"]
  by (simp add: sink_on_parent_def sink_on_derived_def one_rule_def verbs_def scenario_simps)

text \<open>
  C9. \<open>Child(name)\<close> returns a logger named after the parent, a dot and \<open>name\<close>, or
  \<open>name\<close> alone when the parent has no name. For a root logger named \<open>app\<close> whose
  context is the field \<open>logger: app\<close>, the child \<open>auth\<close> is named \<open>app.auth\<close>; an \<open>Info\<close>
  call on it with a message alone hands a record to the sinks as soon as one sink
  accepts \<open>InfoLevel\<close>, and every record it hands over has exactly one field with the
  key \<open>logger\<close>, holding \<open>app.auth\<close>.
\<close>

theorem Child_name_and_single_logger_field:
  assumes "Child p nm s = (c, s1)"
  shows "l_name (loggers s1 c) =
           (if l_name (loggers s p) = [] then nm else l_name (loggers s p) @ ''.'' @ nm) \<and>
         (l_name (loggers s p) = ''app'' \<and>
          l_context (loggers s p) = [zap_String ''logger'' ''app''] \<and> nm = ''auth'' \<longrightarrow>
            l_name (loggers s1 c) = ''app.auth'' \<and>
            (multiCoreSyncWrapper_Enabled (wrappers s1 (zl_core (l_Logger (loggers s1 c)))) InfoLevel
               \<longrightarrow> delivered s1 (Info c msg [] s1) \<noteq> []) \<and>
            (\<forall>w \<in> set (delivered s1 (Info c msg [] s1)).
               filter (\<lambda>f. Key f = ''logger'') (w_fields w) =
                 [zap_String ''logger'' ''app.auth'']))"
proof -
  have name: "l_name (loggers s1 c) =
           (if l_name (loggers s p) = [] then nm else l_name (loggers s p) @ ''.'' @ nm)"
    using assms by (auto simp: Child_def Let_def)
  have ctx: "l_context (loggers s1 c) =
           replaceLoggerField (l_context (loggers s p)) (l_name (loggers s1 c))"
    using assms by (auto simp: Child_def Let_def)
  have nonempty: "delivered s1 (Info c msg [] s1) \<noteq> []"
    if "multiCoreSyncWrapper_Enabled (wrappers s1 (zl_core (l_Logger (loggers s1 c)))) InfoLevel"
  proof -
    have ne: "filter (\<lambda>c. Core_Enabled c InfoLevel)
                (wrappers s1 (zl_core (l_Logger (loggers s1 c)))) \<noteq> []"
      using that by (simp add: Enabled_iff_filter)
    obtain c0 rest where
      f: "filter (\<lambda>c. Core_Enabled c InfoLevel) (wrappers s1 (zl_core (l_Logger (loggers s1 c)))) =
            c0 # rest"
      using ne by (meson neq_Nil_conv)
    then have "c0 \<in> set (filter (\<lambda>c. Core_Enabled c InfoLevel)
                  (wrappers s1 (zl_core (l_Logger (loggers s1 c)))))"
      by simp
    then have "Core_dests c0 \<noteq> []"
      using Core_dests_Enabled [of c0 InfoLevel] by simp
    with f show ?thesis
      by (simp add: Info_def delivered_logAt)
  qed
  have fields: "w_fields w = l_context (loggers s1 c)"
    if "w \<in> set (delivered s1 (Info c msg [] s1))" for w
    using that by (auto simp: Info_def delivered_logAt callFields_def split: list.splits)
  show ?thesis
    using name ctx nonempty fields
    by (auto simp: zap_String_def)
qed

theorem Child_name_and_single_logger_field_witness:
  "Child 0 ''auth'' (AddConsoleHandler 0 InfoLevel False (snd (NewLogger ''app'' InfoLevel start))) =
     child_scenario \<and>
   fst child_scenario = 1 \<and>
   l_name (loggers (AddConsoleHandler 0 InfoLevel False (snd (NewLogger ''app'' InfoLevel start))) 0) =
     ''app'' \<and>
   l_context (loggers (AddConsoleHandler 0 InfoLevel False (snd (NewLogger ''app'' InfoLevel start))) 0) =
     [zap_String ''logger'' ''app''] \<and>
   l_name (loggers (snd child_scenario) 1) = ''app.auth'' \<and>
   multiCoreSyncWrapper_Enabled
     (wrappers (snd child_scenario) (zl_core (l_Logger (loggers (snd child_scenario) 1)))) InfoLevel \<and>
   delivered (snd child_scenario) (Info 1 ''started'' [] (snd child_scenario)) =
     [\<lparr>w_dest = Stdout,
       w_entry = \<lparr>Level = InfoLevel, LoggerName = [], Message = ''started''\<rparr>,
       w_fields = [zap_String ''logger'' ''app.auth'']\<rparr>]"
  using Child_name_and_single_logger_field
    [of 0 "''auth''" "AddConsoleHandler 0 InfoLevel False (snd (NewLogger ''app'' InfoLevel start))"
        1 "snd child_scenario" "''started''"]
  by (simp add: child_scenario_def scenario_simps)

end
